theory Spec2Isabelle
  imports Complex_Main "HOL-Library.Multiset" "HOL-Library.AList"
begin

section \<open>Exact inference over a pedigree: the model of heredity.py\<close>

text \<open>
  The Python program works on floats. In the first model every probability is a
  \<^typ>\<open>real\<close> and arithmetic is exact; a second model of the same functions
  rounds every result to a double. A Python dict is an
  association list whose keys are distinct, in insertion order; a Python set of names
  is a HOL set, and where the program turns a set into a list (\<^verbatim>\<open>list(s)\<close>) the
  iteration order is made explicit by a list. Every exception the program can raise is
  a value of \<open>error\<close>.
\<close>

datatype error = KeyError | TypeError | ZeroDivisionError

definition rbind :: "error + 'a \<Rightarrow> ('a \<Rightarrow> error + 'b) \<Rightarrow> error + 'b" where
  "rbind m f = (case m of Inl e \<Rightarrow> Inl e | Inr x \<Rightarrow> f x)"

text \<open>A loop whose body may raise: the first exception ends it.\<close>

fun traverse :: "('a \<Rightarrow> error + 'b) \<Rightarrow> 'a list \<Rightarrow> error + 'b list" where
  "traverse f [] = Inr []"
| "traverse f (x # xs) =
     (case f x of Inl e \<Rightarrow> Inl e
      | Inr y \<Rightarrow> (case traverse f xs of Inl e \<Rightarrow> Inl e | Inr ys \<Rightarrow> Inr (y # ys)))"

text \<open>\<^verbatim>\<open>d[k]\<close> on a dict: KeyError when the key is missing.\<close>

definition getitem :: "('k \<times> 'v) list \<Rightarrow> 'k \<Rightarrow> error + 'v" where
  "getitem d k = (case map_of d k of None \<Rightarrow> Inl KeyError | Some v \<Rightarrow> Inr v)"

subsection \<open>The table PROBS\<close>

definition PROBS_gene :: "(nat \<times> real) list" where
  "PROBS_gene = [(2, 1 / 100), (1, 3 / 100), (0, 96 / 100)]"

definition PROBS_trait :: "(nat \<times> (bool \<times> real) list) list" where
  "PROBS_trait =
     [(2, [(True, 65 / 100), (False, 35 / 100)]),
      (1, [(True, 56 / 100), (False, 44 / 100)]),
      (0, [(True, 1 / 100), (False, 99 / 100)])]"

definition PROBS_mutation :: real where
  "PROBS_mutation = 1 / 100"

subsection \<open>The pedigree\<close>

text \<open>
  One row of \<^verbatim>\<open>load_data\<close>: \<open>None\<close> is Python's \<^verbatim>\<open>None\<close> (a blank
  parent, an unknown trait).
\<close>

record person =
  name :: string
  mother :: "string option"
  father :: "string option"
  trait :: "bool option"

type_synonym people = "(string \<times> person) list"

text \<open>\<^verbatim>\<open>x in s\<close> for a value that may be \<^verbatim>\<open>None\<close> and a set of names.\<close>

definition is_in :: "string option \<Rightarrow> string set \<Rightarrow> bool" where
  "is_in x s = (case x of None \<Rightarrow> False | Some y \<Rightarrow> y \<in> s)"

text \<open>
  The expression \<^verbatim>\<open>2 if x in two_genes else 1 if x in one_gene else 0\<close>, which
  the program writes out for the person, the mother and the father.
\<close>

definition genes_of :: "string set \<Rightarrow> string set \<Rightarrow> string option \<Rightarrow> nat" where
  "genes_of one_gene two_genes x =
     (if is_in x two_genes then 2 else if is_in x one_gene then 1 else 0)"

subsection \<open>joint\_probability\<close>

text \<open>
  \<^verbatim>\<open>pass_down\<close> has no \<^verbatim>\<open>else\<close>: for any other number of genes it returns
  Python's \<^verbatim>\<open>None\<close>, here \<open>None\<close>.
\<close>

definition pass_down :: "nat \<Rightarrow> bool \<Rightarrow> real option" where
  "pass_down genes passing =
     (if genes = 2 \<and> passing \<or> genes = 0 \<and> \<not> passing then Some (1 - PROBS_mutation)
      else if genes = 2 \<and> \<not> passing \<or> genes = 0 \<and> passing then Some PROBS_mutation
      else if genes = 1 then Some (1 / 2)
      else None)"

text \<open>Arithmetic on results of \<^verbatim>\<open>pass_down\<close>: TypeError on \<^verbatim>\<open>None\<close>.\<close>

definition times_opt :: "real option \<Rightarrow> real option \<Rightarrow> error + real" where
  "times_opt a b =
     (case a of None \<Rightarrow> Inl TypeError
      | Some x \<Rightarrow> (case b of None \<Rightarrow> Inl TypeError | Some y \<Rightarrow> Inr (x * y)))"

text \<open>\<^verbatim>\<open>PROBS["trait"][genes][flag]\<close>.\<close>

definition trait_prob :: "nat \<Rightarrow> bool \<Rightarrow> error + real" where
  "trait_prob genes flag = rbind (getitem PROBS_trait genes) (\<lambda>d. getitem d flag)"

definition gene_chance :: "string set \<Rightarrow> string set \<Rightarrow> string \<Rightarrow> nat \<Rightarrow> nat \<Rightarrow> error + real" where
  "gene_chance one_gene two_genes who mg fg =
     (if who \<in> two_genes then times_opt (pass_down mg True) (pass_down fg True)
      else if who \<in> one_gene then
        rbind (times_opt (pass_down mg True) (pass_down fg False)) (\<lambda>a.
        rbind (times_opt (pass_down mg False) (pass_down fg True)) (\<lambda>b. Inr (a + b)))
      else times_opt (pass_down mg False) (pass_down fg False))"

text \<open>
  The body of the loop over the people: the number that is added to the set
  \<^verbatim>\<open>probabilities\<close> for one person. The test
  \<^verbatim>\<open>mother is father is None\<close> holds when both are \<^verbatim>\<open>None\<close>.
\<close>

definition factor :: "string set \<Rightarrow> string set \<Rightarrow> string set \<Rightarrow> string \<times> person \<Rightarrow> error + real" where
  "factor one_gene two_genes have_trait entry =
     (let who = fst entry; p = snd entry in
      if mother p = father p \<and> father p = None then
        (let genes = genes_of one_gene two_genes (Some who) in
         rbind (getitem PROBS_gene genes) (\<lambda>g.
         rbind (trait_prob genes (who \<in> have_trait)) (\<lambda>t. Inr (g * t))))
      else
        (let mg = genes_of one_gene two_genes (mother p);
             fg = genes_of one_gene two_genes (father p) in
         rbind (gene_chance one_gene two_genes who mg fg) (\<lambda>geneChance.
         (let genes = genes_of one_gene two_genes (Some who) in
          rbind (trait_prob genes (who \<in> have_trait)) (\<lambda>traitChance.
          Inr (geneChance * traitChance))))))"

text \<open>
  The loop. \<^verbatim>\<open>probabilities\<close> is a Python set of floats: it is kept as a list
  without duplicates, and \<^verbatim>\<open>probabilities.add(x)\<close> is \<^const>\<open>List.insert\<close>,
  which leaves the list alone when \<open>x\<close> is already there.
\<close>

fun collect :: "string set \<Rightarrow> string set \<Rightarrow> string set \<Rightarrow> people \<Rightarrow> real list \<Rightarrow> error + real list" where
  "collect one_gene two_genes have_trait [] probabilities = Inr probabilities"
| "collect one_gene two_genes have_trait (entry # rest) probabilities =
     (case factor one_gene two_genes have_trait entry of
        Inl e \<Rightarrow> Inl e
      | Inr x \<Rightarrow> collect one_gene two_genes have_trait rest (List.insert x probabilities))"

text \<open>\<^verbatim>\<open>reduce(mul, probabilities, 1)\<close>.\<close>

definition joint_probability :: "people \<Rightarrow> string set \<Rightarrow> string set \<Rightarrow> string set \<Rightarrow> error + real" where
  "joint_probability people one_gene two_genes have_trait =
     rbind (collect one_gene two_genes have_trait people [])
       (\<lambda>probabilities. Inr (foldl (\<lambda>a b. a * b) 1 probabilities))"

subsection \<open>The table of results: update and normalize\<close>

text \<open>
  \<^verbatim>\<open>probabilities[person]\<close> is a dict with the two keys "gene" and "trait"; the
  fields are named \<open>gene_dist\<close> and \<open>trait_dist\<close> here, since \<open>trait\<close> is
  already a field of a person.
\<close>

record dists =
  gene_dist :: "(nat \<times> real) list"
  trait_dist :: "(bool \<times> real) list"

type_synonym table = "(string \<times> dists) list"

text \<open>\<^verbatim>\<open>d[k] += p\<close>.\<close>

definition add_at :: "('k \<times> real) list \<Rightarrow> 'k \<Rightarrow> real \<Rightarrow> error + ('k \<times> real) list" where
  "add_at d k p = rbind (getitem d k) (\<lambda>v. Inr (AList.update k (v + p) d))"

definition update_row :: "string set \<Rightarrow> string set \<Rightarrow> string set \<Rightarrow> real \<Rightarrow> string \<times> dists \<Rightarrow> error + string \<times> dists" where
  "update_row one_gene two_genes have_trait p entry =
     (let who = fst entry; row = snd entry;
          genes = genes_of one_gene two_genes (Some who) in
      rbind (add_at (gene_dist row) genes p) (\<lambda>g.
      rbind (add_at (trait_dist row) (who \<in> have_trait) p) (\<lambda>t.
      Inr (who, \<lparr>gene_dist = g, trait_dist = t\<rparr>))))"

definition update :: "table \<Rightarrow> string set \<Rightarrow> string set \<Rightarrow> string set \<Rightarrow> real \<Rightarrow> error + table" where
  "update probabilities one_gene two_genes have_trait p =
     traverse (update_row one_gene two_genes have_trait p) probabilities"

text \<open>
  One category of one person in \<^verbatim>\<open>normalize\<close>: the total is taken first, and each
  value is then divided by it; Python raises ZeroDivisionError at the first division
  by a total of zero.
\<close>

definition normalize_dist :: "('k \<times> real) list \<Rightarrow> error + ('k \<times> real) list" where
  "normalize_dist d =
     (let total = sum_list (map snd d) in
      traverse (\<lambda>kv. if total = 0 then Inl ZeroDivisionError
                      else Inr (fst kv, snd kv / total)) d)"

definition normalize_row :: "string \<times> dists \<Rightarrow> error + string \<times> dists" where
  "normalize_row entry =
     rbind (normalize_dist (gene_dist (snd entry))) (\<lambda>g.
     rbind (normalize_dist (trait_dist (snd entry))) (\<lambda>t.
     Inr (fst entry, \<lparr>gene_dist = g, trait_dist = t\<rparr>)))"

text \<open>
  \<^verbatim>\<open>normalize\<close>; the name is \<open>normalize_table\<close> here, since
  \<open>normalize\<close> is a constant of HOL.
\<close>

definition normalize_table :: "table \<Rightarrow> error + table" where
  "normalize_table probabilities = traverse normalize_row probabilities"

subsection \<open>powerset and the enumeration in main\<close>

text \<open>
  \<^verbatim>\<open>itertools.combinations(s, r)\<close>: the sublists of length \<open>r\<close>, in the order
  of the positions.
\<close>

fun combinations :: "'a list \<Rightarrow> nat \<Rightarrow> 'a list list" where
  "combinations xs 0 = [[]]"
| "combinations [] (Suc r) = []"
| "combinations (x # xs) (Suc r) =
     map (\<lambda>ys. x # ys) (combinations xs r) @ combinations xs (Suc r)"

text \<open>
  \<^verbatim>\<open>powerset(s)\<close>; the argument is the list \<^verbatim>\<open>list(s)\<close> of the set, and the
  result is a list of sets.
\<close>

definition powerset :: "'a list \<Rightarrow> 'a set list" where
  "powerset s = map set (concat (map (\<lambda>r. combinations s r) [0 ..< length s + 1]))"

text \<open>\<^verbatim>\<open>names = set(people)\<close>, as the list of its elements.\<close>

definition names_of :: "people \<Rightarrow> string list" where
  "names_of people = remdups (map fst people)"

text \<open>The generator under \<^verbatim>\<open>any\<close> in main, over the entries of the people.\<close>

definition fails_evidence :: "people \<Rightarrow> string set \<Rightarrow> bool" where
  "fails_evidence people have_trait =
     list_ex (\<lambda>entry. trait (snd entry) \<noteq> None
                    \<and> trait (snd entry) \<noteq> Some (fst entry \<in> have_trait)) people"

text \<open>
  The two inner loops: \<^verbatim>\<open>for one_gene in powerset(names)\<close>,
  \<^verbatim>\<open>for two_genes in powerset(names - one_gene)\<close>.
\<close>

definition gene_assignments :: "string list \<Rightarrow> (string set \<times> string set) list" where
  "gene_assignments names =
     concat (map (\<lambda>one_gene.
        map (\<lambda>two_genes. (one_gene, two_genes))
          (powerset (filter (\<lambda>x. x \<notin> one_gene) names)))
       (powerset names))"

text \<open>
  The three loops of main with the test of the evidence left out: every hypothesis
  \<open>(one_gene, two_genes, have_trait)\<close> that the loops reach before the filter.
\<close>

definition candidates :: "string list \<Rightarrow> (string set \<times> string set \<times> string set) list" where
  "candidates names =
     concat (map (\<lambda>have_trait.
        map (\<lambda>g. (fst g, snd g, have_trait)) (gene_assignments names))
       (powerset names))"

text \<open>
  The hypotheses for which main calls \<^verbatim>\<open>joint_probability\<close> and
  \<^verbatim>\<open>update\<close>, in order: a set \<open>have_trait\<close> that fails the evidence is
  skipped (\<^verbatim>\<open>continue\<close>) before the inner loops.
\<close>

definition hypotheses :: "people \<Rightarrow> (string set \<times> string set \<times> string set) list" where
  "hypotheses people =
     concat (map (\<lambda>have_trait.
        if fails_evidence people have_trait then []
        else map (\<lambda>g. (fst g, snd g, have_trait)) (gene_assignments (names_of people)))
       (powerset (names_of people)))"

definition init_table :: "people \<Rightarrow> table" where
  "init_table people =
     map (\<lambda>entry. (fst entry,
        \<lparr>gene_dist = [(2, 0), (1, 0), (0, 0)], trait_dist = [(True, 0), (False, 0)]\<rparr>)) people"

text \<open>The body of the innermost loop, run over a list of hypotheses.\<close>

fun accumulate :: "people \<Rightarrow> table \<Rightarrow> (string set \<times> string set \<times> string set) list \<Rightarrow> error + table" where
  "accumulate people probabilities [] = Inr probabilities"
| "accumulate people probabilities (h # hs) =
     (case joint_probability people (fst h) (fst (snd h)) (snd (snd h)) of
        Inl e \<Rightarrow> Inl e
      | Inr p \<Rightarrow>
          (case update probabilities (fst h) (fst (snd h)) (snd (snd h)) p of
             Inl e \<Rightarrow> Inl e
           | Inr probabilities' \<Rightarrow> accumulate people probabilities' hs))"

text \<open>
  main, from the loaded people to the table that is printed: reading the file and
  printing are left out.
\<close>

definition main :: "people \<Rightarrow> error + table" where
  "main people =
     rbind (accumulate people (init_table people) (hypotheses people)) normalize_table"

subsection \<open>The same program in double arithmetic\<close>

text \<open>
  A Python float is an IEEE double: a real number \<open>m * 2\<^sup>e\<close> with an integer
  \<open>m\<close> of at most 53 bits. A literal is the double nearest to the decimal, and an
  arithmetic operation on doubles returns the exact result rounded to the nearest
  double, a tie going to the even \<open>m\<close>. \<open>double\<close> is this rounding for the
  normal range of the exponent; infinities, NaN and subnormal numbers are left out.
\<close>

definition round_even :: "real \<Rightarrow> int" where
  "round_even x =
     (let f = \<lfloor>x\<rfloor>; d = x - of_int f in
      if d < 1 / 2 then f else if 1 / 2 < d then f + 1 else if even f then f else f + 1)"

text \<open>
  \<open>scale n x e\<close> doubles or halves \<open>x\<close> until it is at least \<open>2\<^sup>5\<^sup>2\<close> and less
  than \<open>2\<^sup>5\<^sup>3\<close>, in at most \<open>n\<close> steps, and keeps the exponent in \<open>e\<close>.
\<close>

fun scale :: "nat \<Rightarrow> real \<Rightarrow> int \<Rightarrow> real \<times> int" where
  "scale 0 x e = (x, e)"
| "scale (Suc n) x e =
     (if x < 2 ^ 52 then scale n (2 * x) (e - 1)
      else if 2 ^ 53 \<le> x then scale n (x / 2) (e + 1)
      else (x, e))"

definition double :: "real \<Rightarrow> real" where
  "double x =
     (if x = 0 then 0
      else let me = scale 1100 \<bar>x\<bar> 0; m = of_int (round_even (fst me)); e = snd me in
        sgn x * (if 0 \<le> e then m * 2 ^ nat e else m / 2 ^ nat (- e)))"

text \<open>
  The definitions with the suffix \<open>_fl\<close> are the definitions of the program once
  more, with every literal and the result of every arithmetic operation passed
  through a rounding \<open>rnd\<close>: with \<open>double\<close> for \<open>rnd\<close> they compute what
  the program computes on floats, with the identity they are the definitions above.
  The integers \<open>0\<close> and \<open>1\<close> that the program starts its sums and its product
  with are exact. The order in which Python iterates over a set is not part of the
  model, so the float model follows the program where that order cannot matter: a
  pedigree of one person.
\<close>

definition PROBS_gene_fl :: "(real \<Rightarrow> real) \<Rightarrow> (nat \<times> real) list" where
  "PROBS_gene_fl rnd = map (\<lambda>kv. (fst kv, rnd (snd kv))) PROBS_gene"

definition PROBS_trait_fl :: "(real \<Rightarrow> real) \<Rightarrow> (nat \<times> (bool \<times> real) list) list" where
  "PROBS_trait_fl rnd =
     map (\<lambda>kd. (fst kd, map (\<lambda>kv. (fst kv, rnd (snd kv))) (snd kd))) PROBS_trait"

definition PROBS_mutation_fl :: "(real \<Rightarrow> real) \<Rightarrow> real" where
  "PROBS_mutation_fl rnd = rnd PROBS_mutation"

definition pass_down_fl :: "(real \<Rightarrow> real) \<Rightarrow> nat \<Rightarrow> bool \<Rightarrow> real option" where
  "pass_down_fl rnd genes passing =
     (if genes = 2 \<and> passing \<or> genes = 0 \<and> \<not> passing
        then Some (rnd (1 - PROBS_mutation_fl rnd))
      else if genes = 2 \<and> \<not> passing \<or> genes = 0 \<and> passing then Some (PROBS_mutation_fl rnd)
      else if genes = 1 then Some (rnd (1 / 2))
      else None)"

definition times_fl :: "(real \<Rightarrow> real) \<Rightarrow> real option \<Rightarrow> real option \<Rightarrow> error + real" where
  "times_fl rnd a b =
     (case a of None \<Rightarrow> Inl TypeError
      | Some x \<Rightarrow> (case b of None \<Rightarrow> Inl TypeError | Some y \<Rightarrow> Inr (rnd (x * y))))"

definition trait_prob_fl :: "(real \<Rightarrow> real) \<Rightarrow> nat \<Rightarrow> bool \<Rightarrow> error + real" where
  "trait_prob_fl rnd genes flag =
     rbind (getitem (PROBS_trait_fl rnd) genes) (\<lambda>d. getitem d flag)"

definition gene_chance_fl ::
  "(real \<Rightarrow> real) \<Rightarrow> string set \<Rightarrow> string set \<Rightarrow> string \<Rightarrow> nat \<Rightarrow> nat \<Rightarrow> error + real" where
  "gene_chance_fl rnd one_gene two_genes who mg fg =
     (if who \<in> two_genes then times_fl rnd (pass_down_fl rnd mg True) (pass_down_fl rnd fg True)
      else if who \<in> one_gene then
        rbind (times_fl rnd (pass_down_fl rnd mg True) (pass_down_fl rnd fg False)) (\<lambda>a.
        rbind (times_fl rnd (pass_down_fl rnd mg False) (pass_down_fl rnd fg True)) (\<lambda>b.
        Inr (rnd (a + b))))
      else times_fl rnd (pass_down_fl rnd mg False) (pass_down_fl rnd fg False))"

definition factor_fl ::
  "(real \<Rightarrow> real) \<Rightarrow> string set \<Rightarrow> string set \<Rightarrow> string set \<Rightarrow> string \<times> person \<Rightarrow> error + real" where
  "factor_fl rnd one_gene two_genes have_trait entry =
     (let who = fst entry; p = snd entry in
      if mother p = father p \<and> father p = None then
        (let genes = genes_of one_gene two_genes (Some who) in
         rbind (getitem (PROBS_gene_fl rnd) genes) (\<lambda>g.
         rbind (trait_prob_fl rnd genes (who \<in> have_trait)) (\<lambda>t. Inr (rnd (g * t)))))
      else
        (let mg = genes_of one_gene two_genes (mother p);
             fg = genes_of one_gene two_genes (father p) in
         rbind (gene_chance_fl rnd one_gene two_genes who mg fg) (\<lambda>geneChance.
         (let genes = genes_of one_gene two_genes (Some who) in
          rbind (trait_prob_fl rnd genes (who \<in> have_trait)) (\<lambda>traitChance.
          Inr (rnd (geneChance * traitChance)))))))"

fun collect_fl ::
  "(real \<Rightarrow> real) \<Rightarrow> string set \<Rightarrow> string set \<Rightarrow> string set \<Rightarrow> people \<Rightarrow> real list
     \<Rightarrow> error + real list" where
  "collect_fl rnd one_gene two_genes have_trait [] probabilities = Inr probabilities"
| "collect_fl rnd one_gene two_genes have_trait (entry # rest) probabilities =
     (case factor_fl rnd one_gene two_genes have_trait entry of
        Inl e \<Rightarrow> Inl e
      | Inr x \<Rightarrow>
          collect_fl rnd one_gene two_genes have_trait rest (List.insert x probabilities))"

definition joint_probability_fl ::
  "(real \<Rightarrow> real) \<Rightarrow> people \<Rightarrow> string set \<Rightarrow> string set \<Rightarrow> string set \<Rightarrow> error + real" where
  "joint_probability_fl rnd people one_gene two_genes have_trait =
     rbind (collect_fl rnd one_gene two_genes have_trait people [])
       (\<lambda>probabilities. Inr (foldl (\<lambda>a b. rnd (a * b)) 1 probabilities))"

definition add_at_fl ::
  "(real \<Rightarrow> real) \<Rightarrow> ('k \<times> real) list \<Rightarrow> 'k \<Rightarrow> real \<Rightarrow> error + ('k \<times> real) list" where
  "add_at_fl rnd d k p = rbind (getitem d k) (\<lambda>v. Inr (AList.update k (rnd (v + p)) d))"

definition update_row_fl ::
  "(real \<Rightarrow> real) \<Rightarrow> string set \<Rightarrow> string set \<Rightarrow> string set \<Rightarrow> real \<Rightarrow> string \<times> dists
     \<Rightarrow> error + string \<times> dists" where
  "update_row_fl rnd one_gene two_genes have_trait p entry =
     (let who = fst entry; row = snd entry;
          genes = genes_of one_gene two_genes (Some who) in
      rbind (add_at_fl rnd (gene_dist row) genes p) (\<lambda>g.
      rbind (add_at_fl rnd (trait_dist row) (who \<in> have_trait) p) (\<lambda>t.
      Inr (who, \<lparr>gene_dist = g, trait_dist = t\<rparr>))))"

definition update_fl ::
  "(real \<Rightarrow> real) \<Rightarrow> table \<Rightarrow> string set \<Rightarrow> string set \<Rightarrow> string set \<Rightarrow> real \<Rightarrow> error + table" where
  "update_fl rnd probabilities one_gene two_genes have_trait p =
     traverse (update_row_fl rnd one_gene two_genes have_trait p) probabilities"

text \<open>
  \<^verbatim>\<open>sum\<close> adds the values from the left, starting with the integer 0. (From
  Python 3.12 on it also carries the rounding errors along; on the totals of a single
  founder this gives the same doubles.)
\<close>

definition normalize_dist_fl :: "(real \<Rightarrow> real) \<Rightarrow> ('k \<times> real) list \<Rightarrow> error + ('k \<times> real) list" where
  "normalize_dist_fl rnd d =
     (let total = foldl (\<lambda>a b. rnd (a + b)) 0 (map snd d) in
      traverse (\<lambda>kv. if total = 0 then Inl ZeroDivisionError
                      else Inr (fst kv, rnd (snd kv / total))) d)"

definition normalize_row_fl :: "(real \<Rightarrow> real) \<Rightarrow> string \<times> dists \<Rightarrow> error + string \<times> dists" where
  "normalize_row_fl rnd entry =
     rbind (normalize_dist_fl rnd (gene_dist (snd entry))) (\<lambda>g.
     rbind (normalize_dist_fl rnd (trait_dist (snd entry))) (\<lambda>t.
     Inr (fst entry, \<lparr>gene_dist = g, trait_dist = t\<rparr>)))"

definition normalize_table_fl :: "(real \<Rightarrow> real) \<Rightarrow> table \<Rightarrow> error + table" where
  "normalize_table_fl rnd probabilities = traverse (normalize_row_fl rnd) probabilities"

fun accumulate_fl ::
  "(real \<Rightarrow> real) \<Rightarrow> people \<Rightarrow> table \<Rightarrow> (string set \<times> string set \<times> string set) list
     \<Rightarrow> error + table" where
  "accumulate_fl rnd people probabilities [] = Inr probabilities"
| "accumulate_fl rnd people probabilities (h # hs) =
     (case joint_probability_fl rnd people (fst h) (fst (snd h)) (snd (snd h)) of
        Inl e \<Rightarrow> Inl e
      | Inr p \<Rightarrow>
          (case update_fl rnd probabilities (fst h) (fst (snd h)) (snd (snd h)) p of
             Inl e \<Rightarrow> Inl e
           | Inr probabilities' \<Rightarrow> accumulate_fl rnd people probabilities' hs))"

definition main_fl :: "(real \<Rightarrow> real) \<Rightarrow> people \<Rightarrow> error + table" where
  "main_fl rnd people =
     rbind (accumulate_fl rnd people (init_table people) (hypotheses people))
       (normalize_table_fl rnd)"

subsection \<open>Pedigrees used as examples\<close>

definition founder :: "string \<Rightarrow> bool option \<Rightarrow> string \<times> person" where
  "founder who t = (who, \<lparr>name = who, mother = None, father = None, trait = t\<rparr>)"

text \<open>Two founders and their child; no trait is known.\<close>

definition trio :: people where
  "trio =
     [founder ''Mother'' None, founder ''Father'' None,
      (''Child'', \<lparr>name = ''Child'', mother = Some ''Mother'', father = Some ''Father'',
                   trait = None\<rparr>)]"

text \<open>One person with a mother who is not in the table, and no father.\<close>

definition orphan :: people where
  "orphan = [(''A'', \<lparr>name = ''A'', mother = Some ''X'', father = None, trait = None\<rparr>)]"

text \<open>
  What the documentation of \<^verbatim>\<open>load_data\<close> excludes: a person with exactly
  one parent, or with a parent that is not a name of the table.
\<close>

definition malformed_entry :: "people \<Rightarrow> string \<times> person \<Rightarrow> bool" where
  "malformed_entry people entry =
     ((mother (snd entry) = None) \<noteq> (father (snd entry) = None)
      \<or> list_ex (\<lambda>parent. \<not> is_in parent (set (map fst people)) \<and> parent \<noteq> None)
           [mother (snd entry), father (snd entry)])"

definition malformed :: "people \<Rightarrow> bool" where
  "malformed people = list_ex (malformed_entry people) people"

text \<open>
  The form of a row of the table while main runs: the keys the table starts with, and
  both distributions with the same total \<open>s\<close>.
\<close>

definition well_row :: "real \<Rightarrow> dists \<Rightarrow> bool" where
  "well_row s row =
     (\<exists>a b c u v. gene_dist row = [(2, a), (1, b), (0, c)]
        \<and> trait_dist row = [(True, u), (False, v)]
        \<and> a + b + c = s \<and> u + v = s)"

section \<open>Properties\<close>

lemmas model_defs =
  joint_probability_def factor_def rbind_def genes_of_def is_in_def getitem_def
  PROBS_gene_def PROBS_trait_def trait_prob_def gene_chance_def pass_down_def times_opt_def
  PROBS_mutation_def

lemmas table_defs =
  update_def update_row_def add_at_def normalize_table_def normalize_row_def normalize_dist_def

subsection \<open>The inheritance model\<close>

text \<open>
  C6: with the mutation rate \<open>m = 0.01\<close>, a parent with two copies passes the gene
  on with probability \<open>1 - m\<close> and does not with probability \<open>m\<close>; a parent with
  no copy passes it on with probability \<open>m\<close> and does not with probability
  \<open>1 - m\<close>; a parent with one copy does either with probability one half.
\<close>

theorem pass_down_table:
  "PROBS_mutation = 1 / 100
   \<and> pass_down 2 True = Some (1 - PROBS_mutation) \<and> pass_down 2 False = Some PROBS_mutation
   \<and> pass_down 0 True = Some PROBS_mutation \<and> pass_down 0 False = Some (1 - PROBS_mutation)
   \<and> pass_down 1 True = Some (1 / 2) \<and> pass_down 1 False = Some (1 / 2)"
  by (simp add: pass_down_def PROBS_mutation_def)

text \<open>
  C10: for a parent with 0, 1 or 2 copies, \<^verbatim>\<open>pass_down\<close> returns a number for
  both outcomes, and the two numbers add up to 1.
\<close>

theorem pass_down_complementary:
  "g \<in> {0, 1, 2} \<Longrightarrow>
   \<exists>a b. pass_down g True = Some a \<and> pass_down g False = Some b \<and> a + b = 1"
proof -
  assume "g \<in> {0, 1, 2}"
  then consider "g = 0" | "g = 1" | "g = 2" by auto
  then show ?thesis
  proof cases
    case 1
    show ?thesis
      by (rule exI [of _ "1 / 100"], rule exI [of _ "99 / 100"])
        (simp add: 1 pass_down_def PROBS_mutation_def)
  next
    case 2
    show ?thesis
      by (rule exI [of _ "1 / 2"], rule exI [of _ "1 / 2"])
        (simp add: 2 pass_down_def PROBS_mutation_def)
  next
    case 3
    show ?thesis
      by (rule exI [of _ "99 / 100"], rule exI [of _ "1 / 100"])
        (simp add: 3 pass_down_def PROBS_mutation_def)
  qed
qed

theorem pass_down_complementary_witness:
  "\<exists>a b. pass_down 2 True = Some a \<and> pass_down 2 False = Some b \<and> a + b = 1"
  using pass_down_complementary [of 2] by simp

subsection \<open>joint\_probability on the pedigree of two founders and a child\<close>

text \<open>
  C1: the claim is that the result is the product of the factors of all the people,
  each taken once, so \<open>0.96 * 0.99 * (0.96 * 0.99) * (0.9801 * 0.99)\<close> when nobody
  in the trio has the gene or the trait. The program keeps the factors in a set:
  the factors of the mother and of the father are the same number, are stored once,
  and the result is \<open>0.96 * 0.99 * (0.9801 * 0.99)\<close>.
\<close>

theorem joint_probability_trio:
  "joint_probability trio {} {} {} = Inr (96 / 100 * (99 / 100) * (9801 / 10000 * (99 / 100)))
   \<and> joint_probability trio {} {} {}
       \<noteq> Inr (96 / 100 * (99 / 100) * (96 / 100 * (99 / 100)) * (9801 / 10000 * (99 / 100)))"
  by (simp add: trio_def founder_def model_defs)

subsection \<open>main on small pedigrees\<close>

lemma powerset_Nil: "powerset [] = [{}]"
  by (simp add: powerset_def)

lemma powerset_single: "powerset [x] = [{}, {x}]"
  by (simp add: powerset_def upt_rec)

lemmas main_single_defs =
  main_def hypotheses_def names_of_def powerset_single powerset_Nil gene_assignments_def
  fails_evidence_def init_table_def

subsection \<open>The range of joint\_probability\<close>

lemma genes_of_cases: "genes_of one_gene two_genes x \<in> {0, 1, 2}"
  by (simp add: genes_of_def)

lemma pass_down_range:
  "g \<in> {0, 1, 2} \<Longrightarrow> (case pass_down g b of None \<Rightarrow> False | Some a \<Rightarrow> 0 < a \<and> a < 1)"
  by (auto simp: pass_down_def PROBS_mutation_def)

lemma trait_prob_range:
  "g \<in> {0, 1, 2} \<Longrightarrow> (case trait_prob g b of Inl e \<Rightarrow> False | Inr t \<Rightarrow> 0 < t \<and> t < 1)"
  by (cases b) (auto simp: trait_prob_def rbind_def getitem_def PROBS_trait_def)

lemma gene_prior_range:
  "g \<in> {0, 1, 2} \<Longrightarrow> (case getitem PROBS_gene g of Inl e \<Rightarrow> False | Inr t \<Rightarrow> 0 < t \<and> t < 1)"
  by (auto simp: getitem_def PROBS_gene_def)

lemma gene_chance_range:
  "mg \<in> {0, 1, 2} \<Longrightarrow> fg \<in> {0, 1, 2} \<Longrightarrow>
   (case gene_chance one_gene two_genes who mg fg of Inl e \<Rightarrow> False | Inr c \<Rightarrow> 0 < c \<and> c < 1)"
  by (auto simp: gene_chance_def rbind_def times_opt_def pass_down_def PROBS_mutation_def)

lemma mult_in_unit: "0 < (a::real) \<Longrightarrow> a < 1 \<Longrightarrow> 0 < b \<Longrightarrow> b < 1 \<Longrightarrow> 0 < a * b \<and> a * b < 1"
proof -
  assume a: "0 < a" "a < 1" and b: "0 < b" "b < 1"
  have "a * b \<le> a" using a b by (intro mult_left_le) auto
  then have "a * b < 1" using a by linarith
  with a b show ?thesis by simp
qed

lemma factor_range:
  "case factor one_gene two_genes have_trait entry of Inl e \<Rightarrow> False | Inr x \<Rightarrow> 0 < x \<and> x < 1"
proof -
  let ?g = "genes_of one_gene two_genes (Some (fst entry))"
  let ?mg = "genes_of one_gene two_genes (mother (snd entry))"
  let ?fg = "genes_of one_gene two_genes (father (snd entry))"
  obtain t where t: "trait_prob ?g (fst entry \<in> have_trait) = Inr t" "0 < t" "t < 1"
    using trait_prob_range [OF genes_of_cases, of one_gene two_genes "Some (fst entry)" "fst entry \<in> have_trait"]
    by (auto split: sum.splits)
  obtain q where q: "getitem PROBS_gene ?g = Inr q" "0 < q" "q < 1"
    using gene_prior_range [OF genes_of_cases, of one_gene two_genes "Some (fst entry)"]
    by (auto split: sum.splits)
  obtain c where c: "gene_chance one_gene two_genes (fst entry) ?mg ?fg = Inr c" "0 < c" "c < 1"
    using gene_chance_range [of ?mg ?fg one_gene two_genes "fst entry"] genes_of_cases
    by (auto split: sum.splits)
  show ?thesis
    using t q c mult_in_unit [of q t] mult_in_unit [of c t]
    by (simp add: factor_def Let_def rbind_def)
qed

lemma collect_range:
  "\<forall>x \<in> set acc. 0 < x \<and> x < 1 \<Longrightarrow>
   \<exists>ps. collect one_gene two_genes have_trait people acc = Inr ps
      \<and> (\<forall>x \<in> set ps. 0 < x \<and> x < 1) \<and> (ps = [] \<longleftrightarrow> people = [] \<and> acc = [])"
proof (induction people arbitrary: acc)
  case Nil
  then show ?case by simp
next
  case (Cons entry rest)
  obtain x where x: "factor one_gene two_genes have_trait entry = Inr x" "0 < x" "x < 1"
    using factor_range [of one_gene two_genes have_trait entry] by (auto split: sum.splits)
  have "\<forall>y \<in> set (List.insert x acc). 0 < y \<and> y < 1"
    using Cons.prems x by auto
  from Cons.IH [OF this] obtain ps where
    ps: "collect one_gene two_genes have_trait rest (List.insert x acc) = Inr ps"
      "\<forall>x \<in> set ps. 0 < x \<and> x < 1" "ps = [] \<longleftrightarrow> rest = [] \<and> List.insert x acc = []"
    by blast
  have "List.insert x acc \<noteq> []" by (auto simp: List.insert_def)
  with ps x show ?case by simp
qed

lemma foldl_times: "foldl (\<lambda>a b. a * b) (a::real) ps = a * prod_list ps"
  by (induction ps arbitrary: a) (simp_all add: mult.assoc)

lemma prod_list_unit:
  "\<forall>x \<in> set ps. 0 < x \<and> x < (1::real) \<Longrightarrow>
   0 < prod_list ps \<and> prod_list ps \<le> 1 \<and> (prod_list ps = 1 \<longleftrightarrow> ps = [])"
proof (induction ps)
  case Nil
  then show ?case by simp
next
  case (Cons x ps)
  then have x: "0 < x" "x < 1" and p: "0 < prod_list ps" "prod_list ps \<le> 1" by auto
  have "x * prod_list ps \<le> x" using x p by (intro mult_left_le) auto
  then have "x * prod_list ps < 1" using x by linarith
  with x p show ?case by simp
qed

lemma joint_probability_pos:
  "\<exists>p. joint_probability people one_gene two_genes have_trait = Inr p \<and> 0 < p \<and> p \<le> 1
     \<and> (p = 1 \<longleftrightarrow> people = [])"
proof -
  obtain ps where ps: "collect one_gene two_genes have_trait people [] = Inr ps"
      "\<forall>x \<in> set ps. 0 < x \<and> x < 1" "ps = [] \<longleftrightarrow> people = []"
    using collect_range [of "[]" one_gene two_genes have_trait people] by auto
  show ?thesis
    using ps prod_list_unit [OF ps(2)]
    by (simp add: joint_probability_def rbind_def foldl_times)
qed

text \<open>
  C9: for every pedigree and every hypothesis, \<^verbatim>\<open>joint_probability\<close> returns a
  number between 0 and 1, and the number is 1 exactly when the pedigree has no people.
\<close>

theorem joint_probability_range:
  "\<exists>p. joint_probability people one_gene two_genes have_trait = Inr p \<and> 0 \<le> p \<and> p \<le> 1
     \<and> (p = 1 \<longleftrightarrow> people = [])"
  using joint_probability_pos [of people one_gene two_genes have_trait]
  by (auto intro: less_imp_le)

subsection \<open>Loops that may raise an exception\<close>

lemma traverse_all_Inr:
  "\<forall>x \<in> set xs. f x = Inr (g x) \<Longrightarrow> traverse f xs = Inr (map g xs)"
  by (induction xs) simp_all

lemma traverse_first_Inl:
  "xs \<noteq> [] \<Longrightarrow> \<forall>x \<in> set xs. f x = Inl e \<Longrightarrow> traverse f xs = Inl e"
  by (cases xs) simp_all

subsection \<open>The table while main runs\<close>

lemma well_row_init: "e \<in> set (init_table people) \<Longrightarrow> well_row 0 (snd e)"
  by (auto simp: init_table_def well_row_def)

lemma add_at_gene:
  "g \<in> {0, 1, 2 :: nat} \<Longrightarrow>
   add_at [(2, a), (1, b), (0, c)] g p =
     Inr [(2, if g = 2 then a + p else a), (1, if g = 1 then b + p else b),
          (0, if g = 0 then c + p else c)]"
  by (auto simp: add_at_def rbind_def getitem_def)

lemma add_at_trait:
  "add_at [(True, u), (False, v)] flag p =
     Inr [(True, if flag then u + p else u), (False, if flag then v else v + p)]"
  by (cases flag) (simp_all add: add_at_def rbind_def getitem_def)

lemma well_rowI:
  "gene_dist row = [(2, a), (1, b), (0, c)] \<Longrightarrow> trait_dist row = [(True, u), (False, v)] \<Longrightarrow>
   a + b + c = s \<Longrightarrow> u + v = s \<Longrightarrow> well_row s row"
  unfolding well_row_def by blast

lemma update_row_well:
  assumes "well_row s (snd entry)"
  shows "\<exists>row. update_row one_gene two_genes have_trait p entry = Inr (fst entry, row)
           \<and> well_row (s + p) row"
proof -
  from assms obtain a b c u v where
    row: "gene_dist (snd entry) = [(2, a), (1, b), (0, c)]"
      "trait_dist (snd entry) = [(True, u), (False, v)]" "a + b + c = s" "u + v = s"
    unfolding well_row_def by blast
  let ?g = "genes_of one_gene two_genes (Some (fst entry))"
  let ?a = "if ?g = 2 then a + p else a"
  let ?b = "if ?g = 1 then b + p else b"
  let ?c = "if ?g = 0 then c + p else c"
  let ?u = "if fst entry \<in> have_trait then u + p else u"
  let ?v = "if fst entry \<in> have_trait then v else v + p"
  let ?row = "\<lparr>gene_dist = [(2, ?a), (1, ?b), (0, ?c)], trait_dist = [(True, ?u), (False, ?v)]\<rparr>"
  have g: "?g \<in> {0, 1, 2}" by (rule genes_of_cases)
  have 1: "update_row one_gene two_genes have_trait p entry = Inr (fst entry, ?row)"
    unfolding update_row_def Let_def row add_at_gene [OF g] add_at_trait rbind_def
    by simp
  have "?a + ?b + ?c = s + p"
    using g row(3) by auto
  moreover have "?u + ?v = s + p"
    using row(4) by auto
  ultimately have "well_row (s + p) ?row"
    by (intro well_rowI [where a = ?a and b = ?b and c = ?c and u = ?u and v = ?v])
      (simp_all only: dists.select_convs)
  with 1 show ?thesis by blast
qed

lemma update_well:
  "\<forall>e \<in> set t. well_row s (snd e) \<Longrightarrow>
   \<exists>t'. update t one_gene two_genes have_trait p = Inr t' \<and> map fst t' = map fst t
      \<and> (\<forall>e \<in> set t'. well_row (s + p) (snd e))"
  unfolding update_def
proof (induction t)
  case Nil
  then show ?case by simp
next
  case (Cons entry t)
  obtain row where row: "update_row one_gene two_genes have_trait p entry = Inr (fst entry, row)"
      "well_row (s + p) row"
    using update_row_well [of s entry one_gene two_genes have_trait p] Cons.prems by auto
  from Cons obtain t' where t': "traverse (update_row one_gene two_genes have_trait p) t = Inr t'"
      "map fst t' = map fst t" "\<forall>e \<in> set t'. well_row (s + p) (snd e)"
    by auto
  show ?case using row t' by simp
qed

lemma accumulate_well:
  "\<forall>e \<in> set t. well_row s (snd e) \<Longrightarrow>
   \<exists>t' s'. accumulate people t hs = Inr t' \<and> map fst t' = map fst t
      \<and> (\<forall>e \<in> set t'. well_row s' (snd e)) \<and> s \<le> s' \<and> (s = s' \<longleftrightarrow> hs = [])"
proof (induction hs arbitrary: t s)
  case Nil
  then show ?case by auto
next
  case (Cons h hs)
  obtain p where p: "joint_probability people (fst h) (fst (snd h)) (snd (snd h)) = Inr p" "0 < p"
    using joint_probability_pos [of people "fst h" "fst (snd h)" "snd (snd h)"] by auto
  obtain t1 where t1: "update t (fst h) (fst (snd h)) (snd (snd h)) p = Inr t1"
      "map fst t1 = map fst t" "\<forall>e \<in> set t1. well_row (s + p) (snd e)"
    using update_well [OF Cons.prems] by blast
  from Cons.IH [OF t1(3)] obtain t' s' where
    t': "accumulate people t1 hs = Inr t'" "map fst t' = map fst t1"
      "\<forall>e \<in> set t'. well_row s' (snd e)" "s + p \<le> s'"
    by blast
  have "s \<le> s'" "s \<noteq> s'" using t'(4) p(2) by auto
  with p t1 t' show ?case by auto
qed



lemma normalize_dist_eq:
  "normalize_dist d =
     (if sum_list (map snd d) = 0 \<and> d \<noteq> [] then Inl ZeroDivisionError
      else Inr (map (\<lambda>kv. (fst kv, snd kv / sum_list (map snd d))) d))"
proof (cases "sum_list (map snd d) = 0")
  case True
  show ?thesis
  proof (cases "d = []")
    case True
    then show ?thesis by (simp add: normalize_dist_def)
  next
    case False
    have "traverse (\<lambda>kv. if sum_list (map snd d) = 0 then Inl ZeroDivisionError
                      else Inr (fst kv, snd kv / sum_list (map snd d))) d = Inl ZeroDivisionError"
      using False True by (intro traverse_first_Inl) simp_all
    with True False show ?thesis by (simp add: normalize_dist_def Let_def)
  qed
next
  case False
  have "traverse (\<lambda>kv. if sum_list (map snd d) = 0 then Inl ZeroDivisionError
                    else Inr (fst kv, snd kv / sum_list (map snd d))) d
        = Inr (map (\<lambda>kv. (fst kv, snd kv / sum_list (map snd d))) d)"
    using False by (intro traverse_all_Inr) simp
  with False show ?thesis by (simp add: normalize_dist_def Let_def)
qed

lemma normalize_row_well:
  assumes "well_row s (snd entry)"
  shows "normalize_row entry =
     (if s = 0 then Inl ZeroDivisionError
      else Inr (fst entry,
        \<lparr>gene_dist = map (\<lambda>kv. (fst kv, snd kv / s)) (gene_dist (snd entry)),
         trait_dist = map (\<lambda>kv. (fst kv, snd kv / s)) (trait_dist (snd entry))\<rparr>))"
proof -
  from assms obtain a b c u v where
    row: "gene_dist (snd entry) = [(2, a), (1, b), (0, c)]"
      "trait_dist (snd entry) = [(True, u), (False, v)]" "a + b + c = s" "u + v = s"
    unfolding well_row_def by blast
  have g: "sum_list (map snd (gene_dist (snd entry))) = s" "gene_dist (snd entry) \<noteq> []"
    using row by (simp_all add: add.assoc)
  have t: "sum_list (map snd (trait_dist (snd entry))) = s" "trait_dist (snd entry) \<noteq> []"
    using row by simp_all
  show ?thesis
    unfolding normalize_row_def normalize_dist_eq g(1) t(1)
    using g(2) t(2) by (simp add: rbind_def)
qed

lemma well_row_normalized:
  assumes "well_row s row" "s \<noteq> 0"
  shows "well_row 1 \<lparr>gene_dist = map (\<lambda>kv. (fst kv, snd kv / s)) (gene_dist row),
         trait_dist = map (\<lambda>kv. (fst kv, snd kv / s)) (trait_dist row)\<rparr>"
proof -
  from assms obtain a b c u v where
    row: "gene_dist row = [(2, a), (1, b), (0, c)]"
      "trait_dist row = [(True, u), (False, v)]" "a + b + c = s" "u + v = s"
    unfolding well_row_def by blast
  have "a / s + b / s + c / s = (a + b + c) / s" "u / s + v / s = (u + v) / s"
    by (simp_all add: add_divide_distrib)
  then show ?thesis
    using row assms(2) by (simp add: well_row_def)
qed

lemma normalize_well:
  assumes "\<forall>e \<in> set t. well_row s (snd e)"
  shows "s = 0 \<Longrightarrow> t \<noteq> [] \<Longrightarrow> normalize_table t = Inl ZeroDivisionError"
    and "s \<noteq> 0 \<Longrightarrow> \<exists>t'. normalize_table t = Inr t' \<and> map fst t' = map fst t
            \<and> (\<forall>e \<in> set t'. well_row 1 (snd e))"
proof -
  show "normalize_table t = Inl ZeroDivisionError" if "s = 0" "t \<noteq> []"
    unfolding normalize_table_def
    using that assms by (intro traverse_first_Inl) (auto simp: normalize_row_well)
  show "\<exists>t'. normalize_table t = Inr t' \<and> map fst t' = map fst t \<and> (\<forall>e \<in> set t'. well_row 1 (snd e))"
    if "s \<noteq> 0"
  proof -
    let ?g = "\<lambda>entry. (fst entry,
        \<lparr>gene_dist = map (\<lambda>kv. (fst kv, snd kv / s)) (gene_dist (snd entry)),
         trait_dist = map (\<lambda>kv. (fst kv, snd kv / s)) (trait_dist (snd entry))\<rparr>)"
    have "normalize_table t = Inr (map ?g t)"
      unfolding normalize_table_def
      using that assms by (intro traverse_all_Inr) (auto simp: normalize_row_well)
    moreover have "\<forall>e \<in> set (map ?g t). well_row 1 (snd e)"
      using assms that by (auto intro: well_row_normalized)
    ultimately show ?thesis by (auto simp: comp_def)
  qed
qed


lemma accumulate_init:
  "\<exists>t s. accumulate people (init_table people) hs = Inr t \<and> map fst t = map fst people
     \<and> (\<forall>e \<in> set t. well_row s (snd e)) \<and> 0 \<le> s \<and> (0 = s \<longleftrightarrow> hs = [])"
proof -
  have "\<forall>e \<in> set (init_table people). well_row 0 (snd e)"
    by (simp add: well_row_init)
  from accumulate_well [OF this, of people hs]
  show ?thesis by (simp add: init_table_def comp_def)
qed

text \<open>
  C7: run from the table of zeros over any list of hypotheses, the accumulation gives
  a table on which \<^verbatim>\<open>normalize\<close> either returns a table or raises
  ZeroDivisionError, and it raises exactly when no hypothesis was accumulated for the
  people of the table: the failure is an error value, never a table.
\<close>

theorem normalize_fails_iff:
  "\<exists>t. accumulate people (init_table people) hs = Inr t
      \<and> (normalize_table t = Inl ZeroDivisionError \<longleftrightarrow> hs = [] \<and> people \<noteq> [])
      \<and> (normalize_table t = Inl ZeroDivisionError \<or> (\<exists>t'. normalize_table t = Inr t'))"
proof -
  obtain t s where t: "accumulate people (init_table people) hs = Inr t"
      "map fst t = map fst people" "\<forall>e \<in> set t. well_row s (snd e)" "0 = s \<longleftrightarrow> hs = []"
    using accumulate_init [of people hs] by blast
  have empty: "t = [] \<longleftrightarrow> people = []"
    using t(2) by (metis map_is_Nil_conv)
  show ?thesis
  proof (cases "s = 0")
    case True
    show ?thesis
    proof (cases "people = []")
      case True
      with empty have "normalize_table t = Inr []" by (simp add: normalize_table_def)
      with t(1) True show ?thesis by auto
    next
      case False
      with empty have "normalize_table t = Inl ZeroDivisionError"
        using normalize_well(1) [OF t(3)] \<open>s = 0\<close> by simp
      with t(1,4) False \<open>s = 0\<close> show ?thesis by auto
    qed
  next
    case False
    from normalize_well(2) [OF t(3) this] obtain t' where "normalize_table t = Inr t'" by blast
    with t(1,4) False show ?thesis by auto
  qed
qed

subsection \<open>powerset lists every subset once\<close>

lemma filter_Nil_subseqs: "filter (\<lambda>ys. ys = []) (subseqs xs) = [[]]"
  by (induction xs) (simp_all add: Let_def filter_map comp_def)

lemma combinations_filter:
  "combinations xs r = filter (\<lambda>ys. length ys = r) (subseqs xs)"
proof (induction xs r rule: combinations.induct)
  case (1 xs)
  then show ?case by (simp add: filter_Nil_subseqs)
next
  case (2 r)
  then show ?case by simp
next
  case (3 x xs r)
  then show ?case by (simp add: Let_def filter_map comp_def)
qed

lemma length_subseqs_le: "ys \<in> set (subseqs xs) \<Longrightarrow> length ys \<le> length xs"
  by (induction xs arbitrary: ys) (auto simp: Let_def le_SucI)

lemma mset_by_value:
  "mset (concat (map (\<lambda>r. filter (\<lambda>y. f y = r) zs) [0 ..< k])) = mset (filter (\<lambda>y. f y < k) zs)"
proof (induction k)
  case 0
  then show ?case by simp
next
  case (Suc k)
  have "{#y \<in># mset zs. f y < k#} + {#y \<in># mset zs. f y = k#} = {#y \<in># mset zs. f y < Suc k#}"
    by (induction zs) auto
  with Suc show ?case by simp
qed

lemma mset_combinations:
  "mset (concat (map (\<lambda>r. combinations s r) [0 ..< length s + 1])) = mset (subseqs s)"
proof -
  have "filter (\<lambda>ys. length ys < length s + 1) (subseqs s) = subseqs s"
    by (rule filter_True) (auto dest: length_subseqs_le)
  then show ?thesis
    using mset_by_value [of length "subseqs s" "length s + 1"]
    by (simp add: combinations_filter)
qed

lemma mset_powerset: "mset (powerset s) = mset (map set (subseqs s))"
  unfolding powerset_def using mset_combinations [of s] by (metis mset_map)

lemma set_powerset: "set (powerset s) = Pow (set s)"
  using mset_powerset [of s] subseqs_powset [of s] by (metis set_map set_mset_mset)

lemma length_powerset: "length (powerset s) = 2 ^ length s"
  using mset_powerset [of s] by (metis length_map length_subseqs size_mset)

lemma distinct_powerset: "distinct s \<Longrightarrow> distinct (powerset s)"
  using mset_powerset [of s] distinct_set_subseqs [of s]
  by (metis mset_eq_imp_distinct_iff)

subsection \<open>The hypotheses that main enumerates\<close>

lemma distinct_concat_map:
  "distinct xs \<Longrightarrow> \<forall>x \<in> set xs. distinct (f x) \<Longrightarrow>
   \<forall>x \<in> set xs. \<forall>y \<in> set xs. x \<noteq> y \<longrightarrow> set (f x) \<inter> set (f y) = {} \<Longrightarrow>
   distinct (concat (map f xs))"
  by (induction xs) auto

lemma set_gene_assignments:
  "set (gene_assignments names) =
     {(one_gene, two_genes). one_gene \<subseteq> set names \<and> two_genes \<subseteq> set names
        \<and> one_gene \<inter> two_genes = {}}"
proof -
  have "x \<in> set (gene_assignments names) \<longleftrightarrow>
      fst x \<subseteq> set names \<and> snd x \<subseteq> set names \<and> fst x \<inter> snd x = {}" for x
  proof (cases x)
    case (Pair a b)
    have "(\<exists>one_gene \<in> Pow (set names). b \<in> Pow {z \<in> set names. z \<notin> one_gene} \<and> a = one_gene)
        \<longleftrightarrow> a \<subseteq> set names \<and> b \<subseteq> set names \<and> a \<inter> b = {}"
      by blast
    then show ?thesis
      by (auto simp: Pair gene_assignments_def set_powerset)
  qed
  then show ?thesis by auto
qed

lemma distinct_gene_assignments:
  assumes "distinct names"
  shows "distinct (gene_assignments names)"
  unfolding gene_assignments_def
proof (rule distinct_concat_map)
  show "distinct (powerset names)"
    using assms by (rule distinct_powerset)
  show "\<forall>one_gene \<in> set (powerset names).
      distinct (map (\<lambda>two_genes. (one_gene, two_genes))
        (powerset (filter (\<lambda>x. x \<notin> one_gene) names)))"
    using assms by (auto simp: distinct_map inj_on_def intro: distinct_powerset)
  show "\<forall>x \<in> set (powerset names). \<forall>y \<in> set (powerset names). x \<noteq> y \<longrightarrow>
      set (map (Pair x) (powerset (filter (\<lambda>z. z \<notin> x) names)))
        \<inter> set (map (Pair y) (powerset (filter (\<lambda>z. z \<notin> y) names))) = {}"
    by auto
qed

lemma length_remaining:
  assumes "distinct xs" "ys \<in> set (subseqs xs)"
  shows "length (filter (\<lambda>x. x \<notin> set ys) xs) = length xs - length ys"
proof -
  have sub: "set ys \<subseteq> set xs"
    using assms(2) subseqs_powset [of xs] by blast
  have dy: "distinct ys"
    using assms by (rule subseqs_distinctD [rotated])
  have "set (filter (\<lambda>x. x \<notin> set ys) xs) = set xs - set ys" by auto
  moreover have "distinct (filter (\<lambda>x. x \<notin> set ys) xs)"
    using assms(1) by simp
  ultimately have "length (filter (\<lambda>x. x \<notin> set ys) xs) = card (set xs - set ys)"
    by (metis distinct_card)
  also have "\<dots> = card (set xs) - card (set ys)"
    using sub by (simp add: card_Diff_subset)
  finally show ?thesis
    using assms(1) dy by (simp add: distinct_card)
qed

lemma sum_subseqs_pow:
  "(\<Sum>ys\<leftarrow>subseqs xs. (2::nat) ^ (length xs - length ys)) = 3 ^ length xs"
proof (induction xs)
  case Nil
  then show ?case by simp
next
  case (Cons x xs)
  have "map (\<lambda>ys. (2::nat) ^ (Suc (length xs) - length ys)) (subseqs xs)
      = map (\<lambda>ys. 2 * 2 ^ (length xs - length ys)) (subseqs xs)"
    by (rule map_cong) (auto dest!: length_subseqs_le simp: Suc_diff_le)
  then have "(\<Sum>ys\<leftarrow>subseqs xs. (2::nat) ^ (Suc (length xs) - length ys))
      = (\<Sum>ys\<leftarrow>subseqs xs. 2 * 2 ^ (length xs - length ys))"
    by (rule arg_cong)
  then have "(\<Sum>ys\<leftarrow>subseqs xs. (2::nat) ^ (Suc (length xs) - length ys))
      = 2 * (\<Sum>ys\<leftarrow>subseqs xs. 2 ^ (length xs - length ys))"
    by (simp only: sum_list_const_mult)
  with Cons show ?case
    by (simp add: Let_def comp_def)
qed

lemma length_gene_assignments:
  assumes "distinct names"
  shows "length (gene_assignments names) = 3 ^ length names"
proof -
  let ?g = "\<lambda>one_gene. (2::nat) ^ length (filter (\<lambda>x. x \<notin> one_gene) names)"
  have "length (gene_assignments names) = (\<Sum>one_gene\<leftarrow>powerset names. ?g one_gene)"
    by (simp add: gene_assignments_def length_concat comp_def length_powerset)
  also have "\<dots> = sum_mset (mset (map ?g (powerset names)))"
    by (simp only: sum_mset_sum_list)
  also have "\<dots> = sum_mset (mset (map ?g (map set (subseqs names))))"
    by (simp only: mset_map mset_powerset)
  also have "\<dots> = (\<Sum>ys\<leftarrow>subseqs names. ?g (set ys))"
    by (simp only: sum_mset_sum_list map_map comp_def)
  also have "\<dots> = (\<Sum>ys\<leftarrow>subseqs names. 2 ^ (length names - length ys))"
    by (rule arg_cong [where f = sum_list], rule map_cong) (simp_all add: length_remaining [OF assms])
  also have "\<dots> = 3 ^ length names"
    by (rule sum_subseqs_pow)
  finally show ?thesis .
qed

lemma set_candidates:
  "set (candidates names) =
     {(one_gene, two_genes, have_trait). one_gene \<subseteq> set names \<and> two_genes \<subseteq> set names
        \<and> have_trait \<subseteq> set names \<and> one_gene \<inter> two_genes = {}}"
proof -
  have "x \<in> set (candidates names) \<longleftrightarrow>
      fst x \<subseteq> set names \<and> fst (snd x) \<subseteq> set names \<and> snd (snd x) \<subseteq> set names
        \<and> fst x \<inter> fst (snd x) = {}" for x
  proof -
    obtain a b c where x: "x = (a, b, c)" by (cases x) auto
    have "x \<in> set (candidates names) \<longleftrightarrow>
        c \<in> set (powerset names) \<and> (a, b) \<in> set (gene_assignments names)"
      by (force simp: x candidates_def)
    then show ?thesis
      by (auto simp: x set_powerset set_gene_assignments)
  qed
  then show ?thesis by auto
qed

lemma distinct_candidates:
  assumes "distinct names"
  shows "distinct (candidates names)"
  unfolding candidates_def
proof (rule distinct_concat_map)
  show "distinct (powerset names)"
    using assms by (rule distinct_powerset)
  show "\<forall>have_trait \<in> set (powerset names).
      distinct (map (\<lambda>g. (fst g, snd g, have_trait)) (gene_assignments names))"
    using distinct_gene_assignments [OF assms] by (auto simp: distinct_map inj_on_def)
  show "\<forall>x \<in> set (powerset names). \<forall>y \<in> set (powerset names). x \<noteq> y \<longrightarrow>
      set (map (\<lambda>g. (fst g, snd g, x)) (gene_assignments names))
        \<inter> set (map (\<lambda>g. (fst g, snd g, y)) (gene_assignments names)) = {}"
    by auto
qed

lemma length_candidates:
  "length (candidates names) = length (gene_assignments names) * length (powerset names)"
proof -
  have "map (\<lambda>have_trait. length (gene_assignments names)) (powerset names)
      = replicate (length (powerset names)) (length (gene_assignments names))"
    by (simp add: map_replicate_const)
  then show ?thesis
    by (simp add: candidates_def length_concat comp_def sum_list_replicate)
qed

lemma hypotheses_filter:
  "hypotheses people =
     filter (\<lambda>h. \<not> fails_evidence people (snd (snd h))) (candidates (names_of people))"
proof -
  have "concat (map (\<lambda>have_trait. if fails_evidence people have_trait then []
          else map (\<lambda>g. (fst g, snd g, have_trait)) gs) hts)
      = filter (\<lambda>h. \<not> fails_evidence people (snd (snd h)))
          (concat (map (\<lambda>have_trait. map (\<lambda>g. (fst g, snd g, have_trait)) gs) hts))"
    for gs :: "(string set \<times> string set) list" and hts
    by (induction hts) (simp_all add: filter_map comp_def)
  then show ?thesis
    by (simp add: hypotheses_def candidates_def)
qed

lemma fails_evidence_iff:
  "\<not> fails_evidence people have_trait \<longleftrightarrow>
     (\<forall>entry \<in> set people. \<forall>b. trait (snd entry) = Some b \<longrightarrow> (fst entry \<in> have_trait) = b)"
proof -
  have "(trait p \<noteq> None \<and> trait p \<noteq> Some flag) \<longleftrightarrow> \<not> (\<forall>b. trait p = Some b \<longrightarrow> flag = b)"
    for p :: person and flag
    by (cases "trait p") auto
  then show ?thesis
    by (simp add: fails_evidence_def list_ex_iff)
qed

lemma set_names_of: "set (names_of people) = fst ` set people"
  by (simp add: names_of_def)

lemma names_of_distinct: "distinct (map fst people) \<Longrightarrow> names_of people = map fst people"
  by (simp add: names_of_def)

text \<open>
  C4: for a pedigree of \<open>n\<close> people, the loops of main, before the test of the
  evidence, reach every triple \<open>(one_gene, two_genes, have_trait)\<close> of sets of
  people with \<open>one_gene\<close> and \<open>two_genes\<close> disjoint, each exactly once: there
  are \<open>3\<^sup>n\<close> pairs \<open>(one_gene, two_genes)\<close> and \<open>2\<^sup>n\<close> sets
  \<open>have_trait\<close>. The hypotheses main works on are these triples, filtered.
\<close>

theorem enumeration_complete:
  assumes "distinct (map fst people)"
  shows "distinct (candidates (names_of people))
    \<and> set (candidates (names_of people)) =
        {(one_gene, two_genes, have_trait).
           one_gene \<subseteq> fst ` set people \<and> two_genes \<subseteq> fst ` set people
           \<and> have_trait \<subseteq> fst ` set people \<and> one_gene \<inter> two_genes = {}}
    \<and> length (gene_assignments (names_of people)) = 3 ^ length people
    \<and> length (powerset (names_of people)) = 2 ^ length people
    \<and> length (candidates (names_of people)) = 3 ^ length people * 2 ^ length people
    \<and> hypotheses people =
        filter (\<lambda>h. \<not> fails_evidence people (snd (snd h))) (candidates (names_of people))"
proof -
  have d: "distinct (names_of people)" by (simp add: names_of_def)
  have n: "length (names_of people) = length people"
    using assms by (simp add: names_of_distinct)
  show ?thesis
    using distinct_candidates [OF d] set_candidates [of "names_of people"]
      length_gene_assignments [OF d] length_powerset [of "names_of people"]
      length_candidates [of "names_of people"] hypotheses_filter [of people]
    by (simp only: n set_names_of simp_thms)
qed

theorem enumeration_complete_witness:
  "distinct (candidates (names_of [founder ''A'' None]))
    \<and> length (gene_assignments (names_of [founder ''A'' None])) = 3 ^ length [founder ''A'' None]
    \<and> length (powerset (names_of [founder ''A'' None])) = 2 ^ length [founder ''A'' None]
    \<and> length (candidates (names_of [founder ''A'' None]))
        = 3 ^ length [founder ''A'' None] * 2 ^ length [founder ''A'' None]"
proof -
  have "distinct (map fst [founder ''A'' None])" by simp
  from enumeration_complete [OF this] show ?thesis by blast
qed

text \<open>
  C5: the hypotheses whose joint probability main adds to the table are exactly the
  enumerated triples in which every person with a known trait is in \<open>have_trait\<close>
  when the trait is true and outside it when the trait is false; a person whose
  trait is unknown does not restrict \<open>have_trait\<close>.
\<close>

theorem accumulated_satisfy_evidence:
  "h \<in> set (hypotheses people) \<longleftrightarrow>
     h \<in> set (candidates (names_of people))
     \<and> (\<forall>entry \<in> set people. \<forall>b. trait (snd entry) = Some b
          \<longrightarrow> (fst entry \<in> snd (snd h)) = b)"
  by (simp add: hypotheses_filter fails_evidence_iff)

theorem accumulated_satisfy_evidence_witness:
  "({}, {}, {''A''}) \<in> set (hypotheses [founder ''A'' (Some True), founder ''B'' None])
   \<and> ({}, {}, {''A'', ''B''}) \<in> set (hypotheses [founder ''A'' (Some True), founder ''B'' None])
   \<and> ({}, {}, {''B''}) \<notin> set (hypotheses [founder ''A'' (Some True), founder ''B'' None])"
  using accumulated_satisfy_evidence [of "({}, {}, {''A''})" "[founder ''A'' (Some True), founder ''B'' None]"]
    accumulated_satisfy_evidence [of "({}, {}, {''A'', ''B''})" "[founder ''A'' (Some True), founder ''B'' None]"]
    accumulated_satisfy_evidence [of "({}, {}, {''B''})" "[founder ''A'' (Some True), founder ''B'' None]"]
  by (auto simp: set_candidates set_names_of founder_def)

subsection \<open>main on a pedigree that is a dict\<close>

lemma hypotheses_nonempty:
  assumes "distinct (map fst people)"
  shows "hypotheses people \<noteq> []"
proof -
  let ?ht = "fst ` {entry \<in> set people. trait (snd entry) = Some True}"
  have "({}, {}, ?ht) \<in> set (candidates (names_of people))"
    by (auto simp: set_candidates set_names_of)
  moreover have "\<not> fails_evidence people ?ht"
    unfolding fails_evidence_iff
  proof (intro ballI allI impI)
    fix entry b
    assume e: "entry \<in> set people" "trait (snd entry) = Some b"
    show "(fst entry \<in> ?ht) = b"
    proof (cases b)
      case True
      with e show ?thesis by force
    next
      case False
      have "fst entry \<notin> ?ht"
      proof
        assume "fst entry \<in> ?ht"
        then obtain other where o: "other \<in> set people" "trait (snd other) = Some True"
            "fst other = fst entry"
          by auto
        have "snd other = snd entry"
          using eq_key_imp_eq_value [OF assms, of "fst entry" "snd other" "snd entry"] o e(1)
          by (metis prod.collapse)
        with o(2) e(2) False show False by simp
      qed
      with False show ?thesis by simp
    qed
  qed
  ultimately have "({}, {}, ?ht) \<in> set (hypotheses people)"
    by (simp add: hypotheses_filter)
  then show ?thesis by auto
qed

lemma absent_parent_genes:
  assumes "h \<in> set (hypotheses people)" "\<not> is_in parent (set (map fst people))"
  shows "genes_of (fst h) (fst (snd h)) parent = 0"
proof -
  have "h \<in> set (candidates (names_of people))"
    using assms(1) by (simp add: hypotheses_filter)
  then have "fst h \<subseteq> fst ` set people" "fst (snd h) \<subseteq> fst ` set people"
    by (auto simp: set_candidates set_names_of)
  with assms(2) show ?thesis
    by (cases parent) (auto simp: genes_of_def is_in_def)
qed

subsection \<open>Evaluating the rounding to a double\<close>

lemma scale_up:
  "k \<le> n \<Longrightarrow> 0 < x \<Longrightarrow> 2 ^ 52 \<le> x * 2 ^ k \<Longrightarrow> x * 2 ^ k < 2 ^ 53 \<Longrightarrow>
   scale n x e = (x * 2 ^ k, e - int k)"
proof (induction k arbitrary: n x e)
  case 0
  then show ?case by (cases n) simp_all
next
  case (Suc k)
  then obtain n' where n: "n = Suc n'" by (cases n) auto
  have "x * 2 ^ Suc k < 2 ^ 53" using Suc.prems by simp
  moreover have "x * 2 \<le> x * 2 ^ Suc k"
    using Suc.prems(2) by (intro mult_left_mono) (auto simp: self_le_power)
  ultimately have small: "x < 2 ^ 52" by simp
  have "scale n' (2 * x) (e - 1) = (2 * x * 2 ^ k, e - 1 - int k)"
    using Suc.prems n by (intro Suc.IH) (simp_all add: mult.assoc mult.left_commute)
  with small n show ?case by (simp add: mult.assoc mult.left_commute)
qed

lemma double_eval:
  assumes "0 < x" "2 ^ 52 \<le> x * 2 ^ k" "x * 2 ^ k < 2 ^ 53" "k \<le> 1100"
  shows "double x = of_int (round_even (x * 2 ^ k)) / 2 ^ k"
proof -
  have "scale 1100 x 0 = (x * 2 ^ k, - int k)"
    using scale_up [OF assms(4) assms(1) assms(2) assms(3), of 0] by simp
  then show ?thesis
    using assms(1) by (cases "k = 0") (simp_all add: double_def Let_def)
qed

lemmas double_simps =
  double_eval [where k = 52] double_eval [where k = 53] double_eval [where k = 54]
  double_eval [where k = 55] double_eval [where k = 56] double_eval [where k = 57]
  double_eval [where k = 58] double_eval [where k = 59] double_eval [where k = 60]
  double_eval [where k = 61]

lemmas float_defs =
  joint_probability_fl_def factor_fl_def rbind_def genes_of_def is_in_def getitem_def
  PROBS_gene_fl_def PROBS_trait_fl_def PROBS_gene_def PROBS_trait_def trait_prob_fl_def
  update_fl_def update_row_fl_def add_at_fl_def normalize_table_fl_def normalize_row_fl_def
  normalize_dist_fl_def

lemma main_fl_single:
  "main_fl double [(who, \<lparr>name = nm, mother = None, father = None, trait = None\<rparr>)]
     = Inr [(who,
        \<lparr>gene_dist = [(2, 5764607523034235 / 2 ^ 59), (1, 8646911284551353 / 2 ^ 58),
                      (0, 1080863910568919 / 2 ^ 50)],
         trait_dist = [(True, 4741389687695659 / 2 ^ 57), (False, 8710862399260013 / 2 ^ 53)]\<rparr>)]"
  by (simp add: main_fl_def hypotheses_def names_of_def powerset_single powerset_Nil
      gene_assignments_def fails_evidence_def init_table_def float_defs
      double_simps round_even_def)

lemma prior_fl:
  "PROBS_gene_fl double =
     [(2, 5764607523034235 / 2 ^ 59), (1, 1080863910568919 / 2 ^ 55),
      (0, 1080863910568919 / 2 ^ 50)]"
  by (simp add: PROBS_gene_fl_def PROBS_gene_def double_simps round_even_def)


subsection \<open>The double model with the identity as rounding is the exact model\<close>

lemma PROBS_fl_exact:
  "PROBS_gene_fl (\<lambda>x. x) = PROBS_gene" "PROBS_trait_fl (\<lambda>x. x) = PROBS_trait"
  "PROBS_mutation_fl (\<lambda>x. x) = PROBS_mutation"
  by (simp_all add: PROBS_gene_fl_def PROBS_trait_fl_def PROBS_mutation_fl_def)

lemma pass_down_fl_exact: "pass_down_fl (\<lambda>x. x) genes passing = pass_down genes passing"
  by (simp add: pass_down_fl_def pass_down_def PROBS_fl_exact)

lemma times_fl_exact: "times_fl (\<lambda>x. x) a b = times_opt a b"
  by (simp add: times_fl_def times_opt_def)

lemma trait_prob_fl_exact: "trait_prob_fl (\<lambda>x. x) genes flag = trait_prob genes flag"
  by (simp add: trait_prob_fl_def trait_prob_def PROBS_fl_exact)

lemma gene_chance_fl_exact:
  "gene_chance_fl (\<lambda>x. x) one_gene two_genes who mg fg = gene_chance one_gene two_genes who mg fg"
  by (simp add: gene_chance_fl_def gene_chance_def pass_down_fl_exact times_fl_exact)

lemma factor_fl_exact:
  "factor_fl (\<lambda>x. x) one_gene two_genes have_trait entry = factor one_gene two_genes have_trait entry"
  by (simp add: factor_fl_def factor_def Let_def PROBS_fl_exact trait_prob_fl_exact
      gene_chance_fl_exact)

lemma collect_fl_exact:
  "collect_fl (\<lambda>x. x) one_gene two_genes have_trait people acc
     = collect one_gene two_genes have_trait people acc"
  by (induction people arbitrary: acc) (simp_all add: factor_fl_exact split: sum.splits)

lemma joint_probability_fl_exact:
  "joint_probability_fl (\<lambda>x. x) people one_gene two_genes have_trait
     = joint_probability people one_gene two_genes have_trait"
  by (simp add: joint_probability_fl_def joint_probability_def collect_fl_exact)

lemma update_fl_exact:
  "update_fl (\<lambda>x. x) probabilities one_gene two_genes have_trait p
     = update probabilities one_gene two_genes have_trait p"
proof -
  have "update_row_fl (\<lambda>x. x) one_gene two_genes have_trait p
      = update_row one_gene two_genes have_trait p"
    by (rule ext) (simp add: update_row_fl_def update_row_def add_at_fl_def add_at_def)
  then show ?thesis by (simp add: update_fl_def update_def)
qed

lemma foldl_plus: "foldl (\<lambda>a b. a + b) (a::real) xs = a + sum_list xs"
  by (induction xs arbitrary: a) simp_all

lemma normalize_table_fl_exact:
  "normalize_table_fl (\<lambda>x. x) probabilities = normalize_table probabilities"
proof -
  have dist: "normalize_dist_fl (\<lambda>x. x) d = normalize_dist d" for d :: "('k \<times> real) list"
    by (simp add: normalize_dist_fl_def normalize_dist_def foldl_plus)
  have "normalize_row_fl (\<lambda>x. x) = normalize_row"
    by (intro ext) (simp add: normalize_row_fl_def normalize_row_def dist)
  then show ?thesis by (simp add: normalize_table_fl_def normalize_table_def)
qed

lemma accumulate_fl_exact:
  "accumulate_fl (\<lambda>x. x) people probabilities hs = accumulate people probabilities hs"
  by (induction hs arbitrary: probabilities)
    (simp_all add: joint_probability_fl_exact update_fl_exact split: sum.splits)

lemma main_fl_exact: "main_fl (\<lambda>x. x) people = main people"
proof -
  have "normalize_table_fl (\<lambda>x. x) = normalize_table"
    by (rule ext) (rule normalize_table_fl_exact)
  then show ?thesis by (simp add: main_fl_def main_def accumulate_fl_exact)
qed

subsection \<open>The posterior of a single founder\<close>

lemma main_single:
  "main [(who, \<lparr>name = nm, mother = None, father = None, trait = None\<rparr>)]
     = Inr [(who, \<lparr>gene_dist = [(2, 1 / 100), (1, 3 / 100), (0, 96 / 100)],
                   trait_dist = [(True, 329 / 10000), (False, 9671 / 10000)]\<rparr>)]"
  by (simp add: main_single_defs table_defs model_defs)

lemma double_prior:
  "double (1 / 100) = 5764607523034235 / 2 ^ 59"
  "double (3 / 100) = 1080863910568919 / 2 ^ 55"
  "double (96 / 100) = 1080863910568919 / 2 ^ 50"
  by (simp_all add: double_simps round_even_def)

text \<open>
  C2, as the program has it: for a single founder whose trait is unknown, main returns
  the prior as the distribution of the gene up to rounding. In exact arithmetic the
  distribution is 0.01 for two copies, 0.03 for one and 0.96 for none. In double
  arithmetic the entries for two copies and for none are the doubles of 0.01 and of
  0.96, and the entry for one copy is the double of 0.03 plus \<open>2\<^sup>-\<^sup>5\<^sup>8\<close>, one unit
  in its last place; each entry is within \<open>10\<^sup>-\<^sup>9\<close> of the prior.
\<close>

theorem single_founder_posterior:
  "main [(who, \<lparr>name = nm, mother = None, father = None, trait = None\<rparr>)]
     = Inr [(who, \<lparr>gene_dist = [(2, 1 / 100), (1, 3 / 100), (0, 96 / 100)],
                   trait_dist = [(True, 329 / 10000), (False, 9671 / 10000)]\<rparr>)]
   \<and> main_fl double [(who, \<lparr>name = nm, mother = None, father = None, trait = None\<rparr>)]
     = Inr [(who,
        \<lparr>gene_dist = [(2, double (1 / 100)), (1, double (3 / 100) + 1 / 2 ^ 58),
                      (0, double (96 / 100))],
         trait_dist = [(True, 4741389687695659 / 2 ^ 57), (False, 8710862399260013 / 2 ^ 53)]\<rparr>)]
   \<and> \<bar>double (1 / 100) - 1 / 100\<bar> \<le> 1 / 10 ^ 9
   \<and> \<bar>double (3 / 100) + 1 / 2 ^ 58 - 3 / 100\<bar> \<le> 1 / 10 ^ 9
   \<and> \<bar>double (96 / 100) - 96 / 100\<bar> \<le> 1 / 10 ^ 9"
  unfolding double_prior main_fl_single main_single by simp

text \<open>
  C2, as claimed, fails on floats: for the founder \<open>A\<close> the program's entry for
  one copy is not the prior's 0.03 (the double \<open>1080863910568919 / 2\<^sup>5\<^sup>5\<close>) but
  0.030000000000000002.
\<close>

theorem single_founder_float_differs:
  "main_fl double [founder ''A'' None]
     = Inr [(''A'',
        \<lparr>gene_dist = [(2, 5764607523034235 / 2 ^ 59), (1, 8646911284551353 / 2 ^ 58),
                      (0, 1080863910568919 / 2 ^ 50)],
         trait_dist = [(True, 4741389687695659 / 2 ^ 57), (False, 8710862399260013 / 2 ^ 53)]\<rparr>)]
   \<and> PROBS_gene_fl double =
       [(2, 5764607523034235 / 2 ^ 59), (1, 1080863910568919 / 2 ^ 55),
        (0, 1080863910568919 / 2 ^ 50)]
   \<and> (8646911284551353 / 2 ^ 58 :: real) \<noteq> 1080863910568919 / 2 ^ 55"
  by (simp add: founder_def main_fl_single prior_fl)

subsection \<open>The table that main returns\<close>

lemma main_well:
  assumes "distinct (map fst people)"
  shows "\<exists>t. main people = Inr t \<and> map fst t = map fst people
           \<and> (\<forall>e \<in> set t. well_row 1 (snd e))"
proof -
  obtain t0 s where t0: "accumulate people (init_table people) (hypotheses people) = Inr t0"
      "map fst t0 = map fst people"
      "\<forall>e \<in> set t0. well_row s (snd e)" "0 = s \<longleftrightarrow> hypotheses people = []"
    using accumulate_init [of people "hypotheses people"] by blast
  have "s \<noteq> 0"
    using t0(4) hypotheses_nonempty [OF assms] by auto
  from normalize_well(2) [OF t0(3) this] t0(1,2) show ?thesis
    by (auto simp: main_def rbind_def)
qed

lemma powerset_filtered: "powerset (filter (\<lambda>x. x \<notin> {y}) [y]) = [{}]"
  by (simp add: powerset_Nil)

lemma main_founder_with_trait:
  "main [founder ''A'' (Some True)]
     = Inr [(''A'', \<lparr>gene_dist = [(2, 65 / 329), (1, 168 / 329), (0, 96 / 329)],
                     trait_dist = [(True, 1), (False, 0)]\<rparr>)]"
  by (auto simp: founder_def main_single_defs table_defs model_defs)

text \<open>
  C3: for every pedigree, main returns a table with a row for every person, and in
  every row the distribution of the gene (over 2, 1 and 0 copies) and the
  distribution of the trait (over true and false) each sum to 1 within \<open>10\<^sup>-\<^sup>9\<close>.
\<close>

theorem normalized_sums_to_one:
  assumes "distinct (map fst people)"
  shows "\<exists>t. main people = Inr t \<and> map fst t = map fst people
    \<and> (\<forall>entry \<in> set t. \<exists>a b c u v.
          gene_dist (snd entry) = [(2, a), (1, b), (0, c)]
          \<and> trait_dist (snd entry) = [(True, u), (False, v)]
          \<and> \<bar>a + b + c - 1\<bar> \<le> 1 / 10 ^ 9 \<and> \<bar>u + v - 1\<bar> \<le> 1 / 10 ^ 9)"
proof -
  obtain t where t: "main people = Inr t" "map fst t = map fst people"
      "\<forall>e \<in> set t. well_row 1 (snd e)"
    using main_well [OF assms] by blast
  have "\<exists>a b c u v. gene_dist (snd entry) = [(2, a), (1, b), (0, c)]
          \<and> trait_dist (snd entry) = [(True, u), (False, v)]
          \<and> \<bar>a + b + c - 1\<bar> \<le> 1 / 10 ^ 9 \<and> \<bar>u + v - 1\<bar> \<le> 1 / 10 ^ 9"
    if "entry \<in> set t" for entry
  proof -
    from t(3) that have "well_row 1 (snd entry)" by blast
    then show ?thesis unfolding well_row_def by fastforce
  qed
  with t(1,2) show ?thesis by blast
qed

theorem normalized_sums_to_one_witness:
  "main [founder ''A'' (Some True)]
     = Inr [(''A'', \<lparr>gene_dist = [(2, 65 / 329), (1, 168 / 329), (0, 96 / 329)],
                     trait_dist = [(True, 1), (False, 0)]\<rparr>)]
   \<and> \<bar>65 / 329 + 168 / 329 + 96 / 329 - (1::real)\<bar> \<le> 1 / 10 ^ 9
   \<and> \<bar>1 + 0 - (1::real)\<bar> \<le> 1 / 10 ^ 9"
proof -
  have "distinct (map fst [founder ''A'' (Some True)])" by simp
  from normalized_sums_to_one [OF this] obtain t where
    t: "main [founder ''A'' (Some True)] = Inr t"
      "\<forall>entry \<in> set t. \<exists>a b c u v.
          gene_dist (snd entry) = [(2, a), (1, b), (0, c)]
          \<and> trait_dist (snd entry) = [(True, u), (False, v)]
          \<and> \<bar>a + b + c - 1\<bar> \<le> 1 / 10 ^ 9 \<and> \<bar>u + v - 1\<bar> \<le> 1 / 10 ^ 9"
    by blast
  from t(1) have "t = [(''A'', \<lparr>gene_dist = [(2, 65 / 329), (1, 168 / 329), (0, 96 / 329)],
                     trait_dist = [(True, 1), (False, 0)]\<rparr>)]"
    by (simp add: main_founder_with_trait)
  with t(2) show ?thesis
    by (simp add: main_founder_with_trait)
qed

subsection \<open>A malformed pedigree\<close>

lemma child_factor:
  assumes "mother (snd entry) \<noteq> None \<or> father (snd entry) \<noteq> None"
  shows "\<exists>c t. gene_chance one_gene two_genes (fst entry)
              (genes_of one_gene two_genes (mother (snd entry)))
              (genes_of one_gene two_genes (father (snd entry))) = Inr c
          \<and> trait_prob (genes_of one_gene two_genes (Some (fst entry)))
              (fst entry \<in> have_trait) = Inr t
          \<and> factor one_gene two_genes have_trait entry = Inr (c * t)"
proof -
  let ?g = "genes_of one_gene two_genes (Some (fst entry))"
  let ?mg = "genes_of one_gene two_genes (mother (snd entry))"
  let ?fg = "genes_of one_gene two_genes (father (snd entry))"
  obtain t where t: "trait_prob ?g (fst entry \<in> have_trait) = Inr t"
    using trait_prob_range [of ?g "fst entry \<in> have_trait"] genes_of_cases
    by (auto split: sum.splits)
  obtain c where c: "gene_chance one_gene two_genes (fst entry) ?mg ?fg = Inr c"
    using gene_chance_range [of ?mg ?fg one_gene two_genes "fst entry"] genes_of_cases
    by (auto split: sum.splits)
  have "factor one_gene two_genes have_trait entry = Inr (c * t)"
    using assms t c by (auto simp: factor_def Let_def rbind_def)
  with t c show ?thesis by blast
qed

lemma malformed_entry_parent:
  "malformed_entry people entry \<Longrightarrow> mother (snd entry) \<noteq> None \<or> father (snd entry) \<noteq> None"
  by (auto simp: malformed_entry_def)

text \<open>
  C8, as the program has it: a pedigree with a malformed record (a person with
  exactly one parent, or with a parent who is not in the pedigree) is not rejected.
  main returns a table with a row for every person, and
  \<^verbatim>\<open>joint_probability\<close> returns a number for every hypothesis main works on.
  There the person of a malformed record is treated as a child, not as a founder: the
  factor is the chance of the person's genes given the genes of the parents, times
  the chance of the trait, and a parent who is absent or not in the pedigree counts
  as having no copy of the gene.
\<close>

theorem malformed_not_rejected:
  assumes "malformed people" and "distinct (map fst people)"
  shows "(\<exists>t. main people = Inr t \<and> map fst t = map fst people)
    \<and> (\<exists>entry \<in> set people. malformed_entry people entry)
    \<and> (\<forall>h \<in> set (hypotheses people).
          (\<exists>p. joint_probability people (fst h) (fst (snd h)) (snd (snd h)) = Inr p)
          \<and> (\<forall>entry \<in> set people. malformed_entry people entry \<longrightarrow>
               (\<exists>c t.
                  gene_chance (fst h) (fst (snd h)) (fst entry)
                    (if is_in (mother (snd entry)) (set (map fst people))
                     then genes_of (fst h) (fst (snd h)) (mother (snd entry)) else 0)
                    (if is_in (father (snd entry)) (set (map fst people))
                     then genes_of (fst h) (fst (snd h)) (father (snd entry)) else 0) = Inr c
                  \<and> trait_prob (genes_of (fst h) (fst (snd h)) (Some (fst entry)))
                      (fst entry \<in> snd (snd h)) = Inr t
                  \<and> factor (fst h) (fst (snd h)) (snd (snd h)) entry = Inr (c * t))))"
proof (intro conjI ballI impI)
  show "\<exists>t. main people = Inr t \<and> map fst t = map fst people"
    using main_well [OF assms(2)] by blast
  show "\<exists>entry \<in> set people. malformed_entry people entry"
    using assms(1) by (simp add: malformed_def list_ex_iff)
next
  fix h
  assume "h \<in> set (hypotheses people)"
  show "\<exists>p. joint_probability people (fst h) (fst (snd h)) (snd (snd h)) = Inr p"
    using joint_probability_pos [of people "fst h" "fst (snd h)" "snd (snd h)"] by blast
next
  fix h entry
  assume h: "h \<in> set (hypotheses people)" and bad: "malformed_entry people entry"
  have g: "(if is_in parent (set (map fst people))
            then genes_of (fst h) (fst (snd h)) parent else 0)
      = genes_of (fst h) (fst (snd h)) parent" for parent
    using absent_parent_genes [OF h, of parent] by simp
  show "\<exists>c t.
      gene_chance (fst h) (fst (snd h)) (fst entry)
        (if is_in (mother (snd entry)) (set (map fst people))
         then genes_of (fst h) (fst (snd h)) (mother (snd entry)) else 0)
        (if is_in (father (snd entry)) (set (map fst people))
         then genes_of (fst h) (fst (snd h)) (father (snd entry)) else 0) = Inr c
      \<and> trait_prob (genes_of (fst h) (fst (snd h)) (Some (fst entry)))
          (fst entry \<in> snd (snd h)) = Inr t
      \<and> factor (fst h) (fst (snd h)) (snd (snd h)) entry = Inr (c * t)"
    unfolding g
    by (rule child_factor [OF malformed_entry_parent [OF bad]])
qed

theorem malformed_not_rejected_witness:
  "malformed orphan \<and> distinct (map fst orphan)
   \<and> (\<exists>t. main orphan = Inr t \<and> map fst t = [''A''])
   \<and> factor {} {} {} (''A'', \<lparr>name = ''A'', mother = Some ''X'', father = None, trait = None\<rparr>)
       = Inr (99 / 100 * (99 / 100) * (99 / 100))"
proof -
  let ?e = "(''A'', \<lparr>name = ''A'', mother = Some ''X'', father = None, trait = None\<rparr>)"
  have m: "malformed orphan" and d: "distinct (map fst orphan)"
    by (simp_all add: malformed_def malformed_entry_def orphan_def is_in_def)
  have e: "?e \<in> set orphan" "malformed_entry orphan ?e"
    by (simp_all add: malformed_entry_def orphan_def is_in_def)
  have h: "({}, {}, {}) \<in> set (hypotheses orphan)"
    by (simp add: orphan_def hypotheses_def names_of_def powerset_single powerset_Nil
        gene_assignments_def fails_evidence_def)
  from malformed_not_rejected [OF m d] have
    main: "\<exists>t. main orphan = Inr t \<and> map fst t = map fst orphan" and
    all: "\<forall>h \<in> set (hypotheses orphan). \<forall>entry \<in> set orphan.
        malformed_entry orphan entry \<longrightarrow>
          (\<exists>c t.
             gene_chance (fst h) (fst (snd h)) (fst entry)
               (if is_in (mother (snd entry)) (set (map fst orphan))
                then genes_of (fst h) (fst (snd h)) (mother (snd entry)) else 0)
               (if is_in (father (snd entry)) (set (map fst orphan))
                then genes_of (fst h) (fst (snd h)) (father (snd entry)) else 0) = Inr c
             \<and> trait_prob (genes_of (fst h) (fst (snd h)) (Some (fst entry)))
                 (fst entry \<in> snd (snd h)) = Inr t
             \<and> factor (fst h) (fst (snd h)) (snd (snd h)) entry = Inr (c * t))"
    by blast+
  from bspec [OF bspec [OF all h] e(1)] e(2)
  have "\<exists>c t. gene_chance {} {} ''A'' 0 0 = Inr c \<and> trait_prob 0 False = Inr t
      \<and> factor {} {} {} ?e = Inr (c * t)"
    by (simp add: orphan_def is_in_def genes_of_def)
  then obtain c t where
    ct: "gene_chance {} {} ''A'' 0 0 = Inr c" "trait_prob 0 False = Inr t"
      "factor {} {} {} ?e = Inr (c * t)"
    by blast
  have "c = 99 / 100 * (99 / 100)" "t = 99 / 100"
    using ct(1,2) by (simp_all add: model_defs)
  with ct(3) main m d show ?thesis
    by (simp add: orphan_def)
qed

text \<open>
  C8, as claimed, fails: the pedigree \<open>orphan\<close> is malformed (the mother is not in
  the pedigree and there is no father), and main returns a table for it, not an
  error.
\<close>

theorem malformed_orphan_runs:
  "malformed orphan
   \<and> main orphan = Inr [(''A'',
       \<lparr>gene_dist = [(2, 1 / 10000), (1, 99 / 5000), (0, 9801 / 10000)],
        trait_dist = [(True, 10477 / 500000), (False, 489523 / 500000)]\<rparr>)]"
  by (simp add: malformed_def malformed_entry_def orphan_def main_single_defs table_defs
      model_defs)

end
